theory Spec2Isabelle
  imports Main
begin

section \<open>goini: an in-memory model of an INI file (sections.go)\<close>

text \<open>
  Go strings are byte sequences, modelled as \<open>string\<close> (a list of 8-bit characters).
  Go maps are partial functions. A \<open>*Section\<close> is a reference into an explicit store,
  because the parser keeps a pointer to the active section while the configuration holds
  the same pointer in its lists. The reader/writer mutexes are not modelled: every
  operation below is one sequential call.
\<close>

subsection \<open>Library functions of package strings\<close>

text \<open>\<open>strings.HasPrefix(s, prefix)\<close>.\<close>

definition HasPrefix :: "string \<Rightarrow> string \<Rightarrow> bool" where
  "HasPrefix s prefix = (take (length prefix) s = prefix)"

text \<open>
  \<open>strings.Index(s, substr)\<close> for a one-byte \<open>substr\<close> (the source only passes
  \<open>"="\<close> and \<open>":"\<close>): the index of the first occurrence, or \<open>-1\<close>.
\<close>

fun Index :: "string \<Rightarrow> char \<Rightarrow> int" where
  "Index [] c = - 1"
| "Index (x # xs) c =
     (if x = c then 0 else (let i = Index xs c in if i = - 1 then - 1 else i + 1))"

text \<open>
  \<open>strings.Trim(s, cutset)\<close>: \<open>s\<close> without the leading and trailing bytes that occur
  in \<open>cutset\<close>. Both cutsets of the source (\<open>" "\<close> and \<open>" []"\<close>) are ASCII, where Go
  trims bytewise.
\<close>

definition Trim :: "string \<Rightarrow> string \<Rightarrow> string" where
  "Trim s cutset =
     rev (dropWhile (\<lambda>c. c \<in> set cutset) (rev (dropWhile (\<lambda>c. c \<in> set cutset) s)))"

subsection \<open>Section\<close>

text \<open>
  \<open>type Section struct { name string; options map[string]string; mutex; orderedOptions []string }\<close>.
  A Section is only made by \<open>AddSection\<close>, with \<open>options\<close> a fresh non-nil map and
  \<open>orderedOptions\<close> the nil slice.
\<close>

record Section =
  name :: string
  options :: "string \<rightharpoonup> string"
  orderedOptions :: "string list"

definition Name :: "Section \<Rightarrow> string" where
  "Name s = name s"

definition Exists :: "Section \<Rightarrow> string \<Rightarrow> bool" where
  "Exists s option = (case options s option of None \<Rightarrow> False | Some _ \<Rightarrow> True)"

text \<open>Reading a missing key of a Go map gives the zero value, the empty string.\<close>

definition ValueOf :: "Section \<Rightarrow> string \<Rightarrow> string" where
  "ValueOf s option = (case options s option of None \<Rightarrow> [] | Some v \<Rightarrow> v)"

text \<open>The methods that mutate return the result and the updated Section.\<close>

definition SetValueFor :: "Section \<Rightarrow> string \<Rightarrow> string \<Rightarrow> string \<times> Section" where
  "SetValueFor s option val =
     (let oldValue = (case options s option of None \<Rightarrow> [] | Some v \<Rightarrow> v)
      in (oldValue, s\<lparr>options := (options s)(option \<mapsto> val)\<rparr>))"

definition Add :: "Section \<Rightarrow> string \<Rightarrow> string \<Rightarrow> string \<times> Section" where
  "Add s option val =
     (case options s option of
        None \<Rightarrow> ([], s\<lparr>options := (options s)(option \<mapsto> val),
                        orderedOptions := orderedOptions s @ [option]\<rparr>)
      | Some oldValue \<Rightarrow> (oldValue, s\<lparr>options := (options s)(option \<mapsto> val)\<rparr>))"

definition Options :: "Section \<Rightarrow> (string \<rightharpoonup> string)" where
  "Options s = options s"

definition OptionNames :: "Section \<Rightarrow> string list" where
  "OptionNames s = orderedOptions s"

text \<open>
  \<open>Section.String\<close>: the header (none for the section named \<open>global\<close>), then one
  line for each name of \<open>orderedOptions\<close>.
\<close>

definition Section_String :: "Section \<Rightarrow> string" where
  "Section_String s =
     (let sName = (if name s = ''global'' then [] else ''['' @ name s @ '']'' @ [CHR 0x0A])
      in sName @
         concat (map (\<lambda>opt. let val = (case options s opt of None \<Rightarrow> [] | Some v \<Rightarrow> v)
                             in if val \<noteq> [] then opt @ ''='' @ val @ [CHR 0x0A]
                                else opt @ [CHR 0x0A])
                     (orderedOptions s)))"

text \<open>
  \<open>parseOption\<close> with its local closure \<open>split\<close> (\<open>split_def\<close> is a fact of
  HOL, hence the longer name).
\<close>

definition parseOption_split :: "string \<Rightarrow> int \<Rightarrow> string \<times> string" where
  "parseOption_split option i =
     (Trim (take (nat i) option) '' '', Trim (drop (nat (i + 1)) option) '' '')"

definition parseOption :: "string \<Rightarrow> string \<times> string" where
  "parseOption option =
     (let i = Index option (CHR ''='') in
      if i \<noteq> - 1 then parseOption_split option i
      else let j = Index option (CHR '':'') in
        if j \<noteq> - 1 then parseOption_split option j
        else (option, []))"

definition AddOption :: "Section \<Rightarrow> string \<Rightarrow> Section" where
  "AddOption s option =
     (case parseOption option of
        (opt, val) \<Rightarrow> if val \<noteq> [] then s\<lparr>options := (options s)(opt \<mapsto> val)\<rparr> else s)"

text \<open>
  \<open>Section.Delete\<close>. The loop ranges over the slice as it was when the loop started
  (its length \<open>n0\<close> and its backing array), while each hit shortens
  \<open>s.orderedOptions\<close> by shifting the tail of the same backing array one place to the
  left. The state of the loop is the backing array \<open>arr\<close> (its first \<open>n0\<close> cells) and
  the current length \<open>n\<close> of \<open>s.orderedOptions\<close>. The slice expression
  \<open>s.orderedOptions[i+1:]\<close> panics when \<open>i + 1\<close> exceeds the current length.
\<close>

datatype 'a outcome = Returned 'a | Panicked

definition remove_at :: "string list \<Rightarrow> nat \<Rightarrow> nat \<Rightarrow> string list" where
  \<comment> \<open>\<open>append(sl[:i], sl[i+1:]...)\<close> on the backing array, for \<open>i + 1 \<le> n\<close>\<close>
  "remove_at arr n i = take i arr @ drop (i + 1) (take n arr) @ drop (n - 1) arr"

fun Section_Delete_loop :: "string \<Rightarrow> nat list \<Rightarrow> string list \<Rightarrow> nat \<Rightarrow> (string list \<times> nat) outcome" where
  "Section_Delete_loop option [] arr n = Returned (arr, n)"
| "Section_Delete_loop option (i # is) arr n =
     (if arr ! i = option then
        (if i + 1 > n then Panicked
         else Section_Delete_loop option is (remove_at arr n i) (n - 1))
      else Section_Delete_loop option is arr n)"

definition Section_Delete :: "Section \<Rightarrow> string \<Rightarrow> (string \<times> Section) outcome" where
  "Section_Delete s option =
     (let val = (case options s option of None \<Rightarrow> [] | Some v \<Rightarrow> v);
          opts = (options s)(option := None)
      in case Section_Delete_loop option [0 ..< length (orderedOptions s)]
                (orderedOptions s) (length (orderedOptions s)) of
           Panicked \<Rightarrow> Panicked
         | Returned (arr, n) \<Rightarrow>
             Returned (val, s\<lparr>options := opts, orderedOptions := take n arr\<rparr>))"

subsection \<open>Library functions of packages regexp and bufio\<close>

datatype error = NotFound string | InvalidPattern string | IOFailure

text \<open>
  Package regexp is not part of the repository. The engine is a parameter: it compiles a
  pattern to a predicate on strings, or rejects it. \<open>regexp.MatchString(pattern, s)\<close>
  returns \<open>(false, err)\<close> for a pattern that does not compile and
  \<open>(matched, nil)\<close> otherwise.
\<close>

type_synonym regexp = "string \<Rightarrow> (string \<Rightarrow> bool) option"

definition MatchString :: "regexp \<Rightarrow> string \<Rightarrow> string \<Rightarrow> bool \<times> error option" where
  "MatchString rx pattern s =
     (case rx pattern of
        None \<Rightarrow> (False, Some (InvalidPattern pattern))
      | Some m \<Rightarrow> (m s, None))"

text \<open>
  An engine for the evaluations at concrete inputs. It agrees with package regexp on the
  patterns those evaluations use and is not meant beyond them: \<open>^lit\<close>, with \<open>lit\<close>
  made of lower-case letters, digits and \<open>-\<close>, matches the strings that start with
  \<open>lit\<close>; \<open>(\<close> does not compile (Go: missing closing parenthesis). It rejects
  every other pattern as well. The general theorems take any engine \<open>rx\<close>.
\<close>

definition plain :: "char \<Rightarrow> bool" where
  "plain c = (c \<in> set ''abcdefghijklmnopqrstuvwxyz0123456789-'')"

definition anchored_literals :: regexp where
  "anchored_literals pattern =
     (case pattern of
        [] \<Rightarrow> None
      | c # lit \<Rightarrow> if c = CHR ''^'' \<and> list_all plain lit
                   then Some (\<lambda>s. HasPrefix s lit) else None)"

text \<open>
  \<open>bufio.Scanner\<close> with its default split function \<open>ScanLines\<close>: the text is cut at
  each newline, one trailing carriage return is dropped from each line, and text after
  the last newline is a line of its own when it is not empty. \<open>acc\<close> holds the bytes
  of the current line in reverse.
\<close>

definition dropCR :: "string \<Rightarrow> string" where
  "dropCR data = (if data \<noteq> [] \<and> last data = CHR 0x0D then butlast data else data)"

fun ScanLines :: "string \<Rightarrow> string \<Rightarrow> string list" where
  "ScanLines acc [] = (if acc = [] then [] else [dropCR (rev acc)])"
| "ScanLines acc (c # cs) =
     (if c = CHR 0x0A then dropCR (rev acc) # ScanLines [] cs else ScanLines (c # acc) cs)"

subsection \<open>IniFile\<close>

text \<open>
  The store of Sections: \<open>cells\<close> gives the Section behind each reference, \<open>fresh\<close>
  is the next reference to hand out.
\<close>

type_synonym ref = nat

record heap =
  cells :: "ref \<Rightarrow> Section"
  fresh :: ref

definition heap0 :: heap where
  "heap0 = \<lparr>cells = (\<lambda>_. \<lparr>name = [], options = Map.empty, orderedOptions = []\<rparr>), fresh = 0\<rparr>"

text \<open>
  \<open>type IniFile struct { filePath string; sections map[string]*list.List; mutex;
  orderedSections []string }\<close>. A \<open>*list.List\<close> of \<open>*Section\<close> is a list of
  references; only the map holds it.
\<close>

record IniFile =
  filePath :: string
  sections :: "string \<rightharpoonup> ref list"
  orderedSections :: "string list"

definition NewIniFile :: "string \<Rightarrow> IniFile" where
  "NewIniFile filePathArg = \<lparr>filePath = filePathArg, sections = Map.empty, orderedSections = []\<rparr>"

definition isSection :: "string \<Rightarrow> bool" where
  "isSection section = HasPrefix section ''[''"

definition AddSection :: "heap \<Rightarrow> IniFile \<Rightarrow> string \<Rightarrow> ref \<times> heap \<times> IniFile" where
  "AddSection h c nm =
     (let section = fresh h;
          h' = h\<lparr>cells := (cells h)(section := \<lparr>name = nm, options = Map.empty, orderedOptions = []\<rparr>),
                 fresh := Suc (fresh h)\<rparr>
      in case sections c nm of
           None \<Rightarrow> (section, h', c\<lparr>sections := (sections c)(nm \<mapsto> [section]),
                                    orderedSections := orderedSections c @ [nm]\<rparr>)
         | Some lst \<Rightarrow> (section, h', c\<lparr>sections := (sections c)(nm \<mapsto> lst @ [section])\<rparr>))"

text \<open>
  The loop of \<open>Parse\<close> over the lines the scanner delivers; \<open>active\<close> is
  \<open>activeSection\<close>. Both branches that do not open a section call \<open>AddOption\<close> on it.
\<close>

definition on_section :: "heap \<Rightarrow> ref \<Rightarrow> (Section \<Rightarrow> Section) \<Rightarrow> heap" where
  "on_section h r f = h\<lparr>cells := (cells h)(r := f (cells h r))\<rparr>"

fun Parse_loop :: "string list \<Rightarrow> heap \<Rightarrow> IniFile \<Rightarrow> ref \<Rightarrow> heap \<times> IniFile" where
  "Parse_loop [] h c active = (h, c)"
| "Parse_loop (line # rest) h c active =
     (if \<not> (HasPrefix line ''#'' \<or> HasPrefix line '';'') \<and> length line > 0 then
        (if isSection line then
           (case AddSection h c (Trim line '' []'') of
              (section, h', c') \<Rightarrow> Parse_loop rest h' c' section)
         else Parse_loop rest (on_section h active (\<lambda>s. AddOption s line)) c active)
      else Parse_loop rest (on_section h active (\<lambda>s. AddOption s line)) c active)"

text \<open>
  \<open>Parse\<close>. The file system is outside the model: \<open>opened\<close> is the error of
  \<open>os.Open\<close>, or the lines the scanner delivers together with \<open>scanner.Err()\<close>.
  \<open>path\<close> is the file path after \<open>path.Clean\<close>.
\<close>

datatype stream = Stream "string list" "error option"

definition Parse :: "heap \<Rightarrow> string \<Rightarrow> error + stream \<Rightarrow> error + heap \<times> IniFile" where
  "Parse h path opened =
     (case opened of
        Inl err \<Rightarrow> Inl err
      | Inr (Stream lines scan_err) \<Rightarrow>
          (case AddSection h (NewIniFile path) ''global'' of
             (activeSection, h', c) \<Rightarrow>
               (case Parse_loop lines h' c activeSection of
                  (h'', c') \<Rightarrow>
                    (case scan_err of Some err \<Rightarrow> Inl err | None \<Rightarrow> Inr (h'', c')))))"

text \<open>Parsing a readable file with the given text.\<close>

definition Parse_text :: "heap \<Rightarrow> string \<Rightarrow> string \<Rightarrow> error + heap \<times> IniFile" where
  "Parse_text h path text = Parse h path (Inr (Stream (ScanLines [] text) None))"

definition FilePath :: "IniFile \<Rightarrow> string" where
  "FilePath c = filePath c"

text \<open>\<open>IniFile.Section\<close>: the loop over the list returns at its first element.\<close>

definition IniFile_Section :: "IniFile \<Rightarrow> string \<Rightarrow> error + ref" where
  "IniFile_Section c nm =
     (case sections c nm of
        Some (s # _) \<Rightarrow> Inr s
      | _ \<Rightarrow> Inl (NotFound nm))"

definition StringValue :: "heap \<Rightarrow> IniFile \<Rightarrow> string \<Rightarrow> string \<Rightarrow> error + string" where
  "StringValue h c section option =
     (case IniFile_Section c section of
        Inl err \<Rightarrow> Inl err
      | Inr s \<Rightarrow> Inr (ValueOf (cells h s) option))"

definition Sections :: "IniFile \<Rightarrow> string \<Rightarrow> error + ref list" where
  "Sections c nm =
     (if nm = [] then
        Inr (concat (map (\<lambda>n. case sections c n of Some lst \<Rightarrow> lst | None \<Rightarrow> [])
                         (orderedSections c)))
      else (case sections c nm of
              Some lst \<Rightarrow> Inr lst
            | None \<Rightarrow> Inl (NotFound nm)))"

text \<open>
  \<open>IniFile.Find\<close>. Go visits the keys of a map in an order it does not specify: \<open>keys\<close>
  is that order, an enumeration of the keys of \<open>c.sections\<close>.
\<close>

definition iteration_order :: "IniFile \<Rightarrow> string list \<Rightarrow> bool" where
  "iteration_order c keys = (distinct keys \<and> set keys = dom (sections c))"

fun Find_loop :: "regexp \<Rightarrow> IniFile \<Rightarrow> string \<Rightarrow> string list \<Rightarrow> ref list \<Rightarrow> error + ref list" where
  "Find_loop rx c regex [] secs = Inr secs"
| "Find_loop rx c regex (key # keys) secs =
     (case MatchString rx regex key of
        (matched, err) \<Rightarrow>
          if matched then
            Find_loop rx c regex keys
              (secs @ (case sections c key of Some lst \<Rightarrow> lst | None \<Rightarrow> []))
          else (case err of
                  Some e \<Rightarrow> Inl e
                | None \<Rightarrow> Find_loop rx c regex keys secs))"

definition Find :: "regexp \<Rightarrow> IniFile \<Rightarrow> string list \<Rightarrow> string \<Rightarrow> error + ref list" where
  "Find rx c keys regex = Find_loop rx c regex keys []"

text \<open>
  \<open>IniFile.Delete\<close>. The second loop has the shape of the loop of \<open>Section.Delete\<close>:
  it ranges over the original slice while each hit shifts the backing array, and the
  slice expression \<open>c.orderedSections[i+1:]\<close> panics when \<open>i + 1\<close> exceeds the
  current length. It returns the backing array, the current length and the error.
\<close>

fun Delete_loop :: "regexp \<Rightarrow> string \<Rightarrow> nat list \<Rightarrow> string list \<Rightarrow> nat
    \<Rightarrow> (string list \<times> nat \<times> error option) outcome" where
  "Delete_loop rx regex [] arr n = Returned (arr, n, None)"
| "Delete_loop rx regex (i # is) arr n =
     (case MatchString rx regex (arr ! i) of
        (matched, err) \<Rightarrow>
          if matched then
            (if i + 1 > n then Panicked
             else Delete_loop rx regex is (remove_at arr n i) (n - 1))
          else (case err of
                  Some e \<Rightarrow> Returned (arr, n, Some e)
                | None \<Rightarrow> Delete_loop rx regex is arr n))"

definition IniFile_Delete :: "regexp \<Rightarrow> heap \<Rightarrow> IniFile \<Rightarrow> string list \<Rightarrow> string
    \<Rightarrow> ((error + ref list) \<times> IniFile) outcome" where
  "IniFile_Delete rx h c keys regex =
     (case Find rx c keys regex of
        Inl err \<Rightarrow> Returned (Inl err, c)
      | Inr secs \<Rightarrow>
          (let m = fold (\<lambda>s m. m(name (cells h s) := None)) secs (sections c)
           in case Delete_loop rx regex [0 ..< length (orderedSections c)]
                     (orderedSections c) (length (orderedSections c)) of
                Panicked \<Rightarrow> Panicked
              | Returned (arr, n, err) \<Rightarrow>
                  (let c' = c\<lparr>sections := m, orderedSections := take n arr\<rparr>
                   in case err of
                        Some e \<Rightarrow> Returned (Inl e, c')
                      | None \<Rightarrow> Returned (Inr secs, c'))))"

text \<open>
  \<open>IniFile.String\<close>: for each name of \<open>orderedSections\<close> the result of
  \<open>c.Sections(name)\<close>, its error ignored.
\<close>

definition IniFile_String :: "heap \<Rightarrow> IniFile \<Rightarrow> string" where
  "IniFile_String h c =
     concat (map (\<lambda>nm. concat (map (\<lambda>section. Section_String (cells h section))
                                    (case Sections c nm of Inl _ \<Rightarrow> [] | Inr secs \<Rightarrow> secs)))
                 (orderedSections c))"

subsection \<open>The specification's reading of a raw line\<close>

text \<open>
  The specification words \<open>AddOption\<close> as follows: split on the first \<open>=\<close> if there
  is one, else on the first \<open>:\<close>, else the whole trimmed line is the key and the value
  is empty; key and value are trimmed of surrounding spaces. \<open>key_value_of_line\<close>
  follows these words, not the source; it is compared with \<open>parseOption\<close> below.
\<close>

definition cut_at_first :: "char \<Rightarrow> string \<Rightarrow> string \<times> string" where
  "cut_at_first d line = (takeWhile (\<lambda>x. x \<noteq> d) line, tl (dropWhile (\<lambda>x. x \<noteq> d) line))"

definition key_value_of_line :: "string \<Rightarrow> string \<times> string" where
  "key_value_of_line line =
     (if CHR ''='' \<in> set line then
        (case cut_at_first (CHR ''='') line of (k, v) \<Rightarrow> (Trim k '' '', Trim v '' ''))
      else if CHR '':'' \<in> set line then
        (case cut_at_first (CHR '':'') line of (k, v) \<Rightarrow> (Trim k '' '', Trim v '' ''))
      else (Trim line '' '', []))"

subsection \<open>Sample values\<close>

text \<open>An empty Section named \<open>s\<close>, as \<open>AddSection\<close> makes it.\<close>

definition sec0 :: Section where
  "sec0 = \<lparr>name = ''s'', options = Map.empty, orderedOptions = []\<rparr>"

subsection \<open>Predicates on configurations\<close>

text \<open>The Section instances registered under a name, in append order.\<close>

definition instances :: "IniFile \<Rightarrow> string \<Rightarrow> ref list" where
  "instances c nm = (case sections c nm of None \<Rightarrow> [] | Some lst \<Rightarrow> lst)"

text \<open>
  The invariant of the data model: a name is in the order sequence exactly when it has
  instances in the mapping.
\<close>

definition registry_invariant :: "IniFile \<Rightarrow> bool" where
  "registry_invariant c = (\<forall>nm. (nm \<in> set (orderedSections c)) = (instances c nm \<noteq> []))"

text \<open>
  \<open>AddSection\<close> pushes a Section onto every list it creates, and nothing removes an
  element of a list: no key of the mapping holds an empty list.
\<close>

definition no_empty_slot :: "IniFile \<Rightarrow> bool" where
  "no_empty_slot c = (\<forall>nm. sections c nm \<noteq> Some [])"

text \<open>\<open>AddSection\<close> registers a Section under its own name, and no method renames it.\<close>

definition named_by_key :: "heap \<Rightarrow> IniFile \<Rightarrow> bool" where
  "named_by_key h c = (\<forall>nm. list_all (\<lambda>s. name (cells h s) = nm) (instances c nm))"

subsection \<open>Sample configurations\<close>

text \<open>The four lines of the specification's scenario.\<close>

definition scenario :: "string list" where
  "scenario = [''foo=bar'', ''[section]'', ''; a comment'', ''baz = qux'']"

text \<open>A new IniFile after \<open>AddSection\<close> for each of the names, on the empty store.\<close>

definition with_sections :: "string list \<Rightarrow> heap \<times> IniFile" where
  "with_sections nms =
     fold (\<lambda>nm (h, c). case AddSection h c nm of (_, h', c') \<Rightarrow> (h', c')) nms
       (heap0, NewIniFile ''conf.ini'')"

text \<open>
  The configuration of the scenario made with the public operations that register
  names: \<open>AddSection\<close> and \<open>Add\<close>.
\<close>

definition built :: "heap \<times> IniFile" where
  "built =
     (case AddSection heap0 (NewIniFile ''conf.ini'') ''global'' of
        (g, h1, c1) \<Rightarrow>
          (case AddSection (on_section h1 g (\<lambda>s. snd (Add s ''foo'' ''bar''))) c1 ''section'' of
             (s, h2, c2) \<Rightarrow> (on_section h2 s (\<lambda>s. snd (Add s ''baz'' ''qux'')), c2)))"

text \<open>
  Two sections named \<open>x\<close> around a section \<open>y\<close>, with the option \<open>k\<close> set to
  \<open>first\<close> in the first \<open>x\<close> and to \<open>second\<close> in the second.
\<close>

definition twice_x :: "heap \<times> IniFile" where
  "twice_x =
     (case AddSection heap0 (NewIniFile ''conf.ini'') ''x'' of
        (x1, h1, c1) \<Rightarrow>
          (case AddSection (on_section h1 x1 (\<lambda>s. snd (Add s ''k'' ''first''))) c1 ''y'' of
             (y, h2, c2) \<Rightarrow>
               (case AddSection h2 c2 ''x'' of
                  (x2, h3, c3) \<Rightarrow> (on_section h3 x2 (\<lambda>s. snd (Add s ''k'' ''second'')), c3))))"

section \<open>Properties of Section\<close>

subsection \<open>Index and the split at the first delimiter\<close>

lemma Index_takeWhile: "c \<in> set s \<Longrightarrow> Index s c = int (length (takeWhile (\<lambda>x. x \<noteq> c) s))"
  by (induction s) (auto simp: Let_def)

lemma Index_absent: "c \<notin> set s \<Longrightarrow> Index s c = - 1"
  by (induction s) (auto simp: Let_def)

lemma Index_present: "c \<in> set s \<Longrightarrow> Index s c \<noteq> - 1"
  by (simp add: Index_takeWhile)

lemma split_cut:
  assumes "c \<in> set line"
  shows "parseOption_split line (Index line c) =
           (case cut_at_first c line of (k, v) \<Rightarrow> (Trim k '' '', Trim v '' ''))"
proof -
  let ?n = "length (takeWhile (\<lambda>x. x \<noteq> c) line)"
  have i: "Index line c = int ?n"
    using assms by (rule Index_takeWhile)
  have t: "take ?n line = takeWhile (\<lambda>x. x \<noteq> c) line"
    by (rule takeWhile_eq_take [symmetric])
  have "drop (Suc ?n) line = tl (drop ?n line)"
    by (simp only: drop_Suc tl_drop)
  also have "drop ?n line = dropWhile (\<lambda>x. x \<noteq> c) line"
    by (rule dropWhile_eq_drop [symmetric])
  finally have d: "drop (Suc ?n) line = tl (dropWhile (\<lambda>x. x \<noteq> c) line)" .
  have "nat (int ?n + 1) = Suc ?n" by simp
  with i t d show ?thesis
    by (simp only: parseOption_split_def cut_at_first_def prod.case nat_int)
qed

lemma parseOption_cases:
  "parseOption line =
     (if CHR ''='' \<in> set line then
        (case cut_at_first (CHR ''='') line of (k, v) \<Rightarrow> (Trim k '' '', Trim v '' ''))
      else if CHR '':'' \<in> set line then
        (case cut_at_first (CHR '':'') line of (k, v) \<Rightarrow> (Trim k '' '', Trim v '' ''))
      else (line, []))"
  by (simp add: parseOption_def Let_def split_cut Index_absent Index_present)

text \<open>
  C3. For every raw line, \<open>AddOption\<close> acts as the specification words it: with the
  line split on the first \<open>=\<close>, else on the first \<open>:\<close>, else taken whole as a key without
  value, and key and value trimmed of spaces, the Section gets the entry for the key
  exactly when the value is not empty, and is unchanged otherwise; so a line without
  delimiter (a bare key, a comment) is never stored.
\<close>

theorem AddOption_stores_iff_value:
  "AddOption s line =
     (case key_value_of_line line of
        (k, v) \<Rightarrow> if v \<noteq> [] then s\<lparr>options := (options s)(k \<mapsto> v)\<rparr> else s)
   \<and> (snd (key_value_of_line line) = [] \<longrightarrow> AddOption s line = s)
   \<and> (snd (key_value_of_line line) \<noteq> [] \<longrightarrow>
        options (AddOption s line) (fst (key_value_of_line line)) = Some (snd (key_value_of_line line)))
   \<and> (CHR ''='' \<notin> set line \<and> CHR '':'' \<notin> set line \<longrightarrow> AddOption s line = s)"
  by (auto simp: AddOption_def parseOption_cases key_value_of_line_def split: prod.splits)

theorem AddOption_stores_iff_value_witness:
  "snd (key_value_of_line '' a = b = c '') \<noteq> []
   \<and> options (AddOption sec0 '' a = b = c '') ''a'' = Some ''b = c''
   \<and> snd (key_value_of_line ''a:'') = [] \<and> AddOption sec0 ''a:'' = sec0
   \<and> CHR ''='' \<notin> set ''; note'' \<and> CHR '':'' \<notin> set ''; note'' \<and> AddOption sec0 ''; note'' = sec0"
proof -
  have a: "key_value_of_line '' a = b = c '' = (''a'', ''b = c'')"
    by (simp add: key_value_of_line_def cut_at_first_def Trim_def)
  have b: "key_value_of_line ''a:'' = (''a'', [])"
    by (simp add: key_value_of_line_def cut_at_first_def Trim_def)
  have c: "CHR ''='' \<notin> set ''; note'' \<and> CHR '':'' \<notin> set ''; note''"
    by simp
  have d: "key_value_of_line ''; note'' = (''; note'', [])"
    by (simp add: key_value_of_line_def Trim_def)
  show ?thesis
    using AddOption_stores_iff_value [of sec0 "'' a = b = c ''"]
      AddOption_stores_iff_value [of sec0 "''a:''"]
      AddOption_stores_iff_value [of sec0 "''; note''"] a b c d
    by simp
qed

subsection \<open>Add and SetValueFor\<close>

text \<open>
  C6. \<open>Add\<close> of an absent name appends it to the order sequence and returns the empty
  string; \<open>Add\<close> of a present name returns the previous value and leaves the order
  sequence as it is; the value is set in both cases. Hence a second \<open>Add\<close> of the same
  name and value returns that value and changes nothing in the order sequence.
\<close>

theorem Add_appends_once:
  "(\<not> Exists s k \<longrightarrow>
      fst (Add s k v) = [] \<and> OptionNames (snd (Add s k v)) = OptionNames s @ [k])
   \<and> (Exists s k \<longrightarrow>
      fst (Add s k v) = ValueOf s k \<and> OptionNames (snd (Add s k v)) = OptionNames s)
   \<and> ValueOf (snd (Add s k v)) k = v
   \<and> fst (Add (snd (Add s k v)) k v) = v
   \<and> OptionNames (snd (Add (snd (Add s k v)) k v)) = OptionNames (snd (Add s k v))"
  by (simp add: Add_def Exists_def ValueOf_def OptionNames_def split: option.splits)

theorem Add_appends_once_witness:
  "\<not> Exists sec0 ''k'' \<and> fst (Add sec0 ''k'' ''v'') = []
   \<and> OptionNames (snd (Add sec0 ''k'' ''v'')) = [''k'']
   \<and> Exists (snd (Add sec0 ''k'' ''v'')) ''k''
   \<and> fst (Add (snd (Add sec0 ''k'' ''v'')) ''k'' ''w'') = ''v''
   \<and> OptionNames (snd (Add (snd (Add sec0 ''k'' ''v'')) ''k'' ''w'')) = [''k'']"
proof -
  have a: "\<not> Exists sec0 ''k''"
    by (simp add: Exists_def sec0_def)
  have b: "Exists (snd (Add sec0 ''k'' ''v'')) ''k''"
    by (simp add: Exists_def Add_def sec0_def)
  have c: "OptionNames sec0 = []"
    by (simp add: OptionNames_def sec0_def)
  show ?thesis
    using Add_appends_once [of sec0 "''k''" "''v''"]
      Add_appends_once [of "snd (Add sec0 ''k'' ''v'')" "''k''" "''w''"] a b c
    by simp
qed

text \<open>
  C7. \<open>SetValueFor\<close> returns the previous value (the empty string for an absent
  name), sets the value, so that \<open>Exists\<close> and \<open>ValueOf\<close> see the option, and leaves
  the order sequence as it is, where \<open>Add\<close> of an absent name appends the name.
\<close>

theorem SetValueFor_keeps_order:
  "fst (SetValueFor s k v) = ValueOf s k
   \<and> (\<not> Exists s k \<longrightarrow> fst (SetValueFor s k v) = [])
   \<and> Exists (snd (SetValueFor s k v)) k
   \<and> ValueOf (snd (SetValueFor s k v)) k = v
   \<and> OptionNames (snd (SetValueFor s k v)) = OptionNames s
   \<and> (\<not> Exists s k \<longrightarrow> OptionNames (snd (Add s k v)) = OptionNames s @ [k])"
  by (simp add: SetValueFor_def Add_def Exists_def ValueOf_def OptionNames_def Let_def
      split: option.splits)

theorem SetValueFor_keeps_order_witness:
  "\<not> Exists sec0 ''foo'' \<and> fst (SetValueFor sec0 ''foo'' ''baz'') = []
   \<and> Exists (snd (SetValueFor sec0 ''foo'' ''baz'')) ''foo''
   \<and> ValueOf (snd (SetValueFor sec0 ''foo'' ''baz'')) ''foo'' = ''baz''
   \<and> OptionNames (snd (SetValueFor sec0 ''foo'' ''baz'')) = []
   \<and> OptionNames (snd (Add sec0 ''foo'' ''baz'')) = [''foo'']"
proof -
  have a: "\<not> Exists sec0 ''foo''"
    by (simp add: Exists_def sec0_def)
  have c: "OptionNames sec0 = []"
    by (simp add: OptionNames_def sec0_def)
  have v: "ValueOf sec0 ''foo'' = []"
    by (simp add: ValueOf_def sec0_def)
  show ?thesis
    using SetValueFor_keeps_order [of sec0 "''foo''" "''baz''"] a c v
    by simp
qed

subsection \<open>Which operations touch the order sequence\<close>

lemma set_remove_at: "set (remove_at arr n i) \<subseteq> set arr"
proof -
  have "set (drop (i + 1) (take n arr)) \<subseteq> set arr"
    using set_drop_subset set_take_subset by fast
  moreover have "set (take i arr) \<subseteq> set arr" "set (drop (n - 1) arr) \<subseteq> set arr"
    by (rule set_take_subset, rule set_drop_subset)
  ultimately show ?thesis
    by (simp add: remove_at_def)
qed

lemma Section_Delete_loop_names:
  "Section_Delete_loop k is arr n = Returned (arr', n') \<Longrightarrow> set arr' \<subseteq> set arr"
proof (induction "is" arbitrary: arr n)
  case Nil
  then show ?case by simp
next
  case (Cons i "is")
  show ?case
  proof (cases "arr ! i = k")
    case True
    with Cons.prems have "Section_Delete_loop k is (remove_at arr n i) (n - 1) = Returned (arr', n')"
      by (simp split: if_splits)
    then have "set arr' \<subseteq> set (remove_at arr n i)"
      by (rule Cons.IH)
    then show ?thesis
      using set_remove_at by blast
  next
    case False
    with Cons.prems Cons.IH show ?thesis by simp
  qed
qed

lemma Section_Delete_names:
  assumes "Section_Delete s k = Returned (x, s')"
  shows "set (OptionNames s') \<subseteq> set (OptionNames s)"
proof -
  from assms obtain arr n where
    l: "Section_Delete_loop k [0 ..< length (orderedOptions s)] (orderedOptions s)
          (length (orderedOptions s)) = Returned (arr, n)"
    and s': "orderedOptions s' = take n arr"
    by (auto simp: Section_Delete_def Let_def split: outcome.splits)
  from l have "set arr \<subseteq> set (orderedOptions s)"
    by (rule Section_Delete_loop_names)
  with s' show ?thesis
    using set_take_subset [of n arr] by (auto simp: OptionNames_def)
qed

lemma Section_String_cong:
  assumes "name s' = name s" "orderedOptions s' = orderedOptions s"
    and "\<And>k. k \<in> set (orderedOptions s) \<Longrightarrow> options s' k = options s k"
  shows "Section_String s' = Section_String s"
  using assms by (simp add: Section_String_def cong: map_cong)

text \<open>
  C10, amended. \<open>AddOption\<close> never changes the order sequence. An option it stores is
  seen by \<open>Exists\<close> and \<open>ValueOf\<close>; when its name is not yet in the order sequence,
  the name is not in \<open>OptionNames\<close> afterwards either and the text of
  \<open>Section.String\<close> is what it was before. Of the other operations, \<open>SetValueFor\<close>
  leaves the order sequence alone, \<open>Section.Delete\<close> brings no new name into it, and
  \<open>Add\<close> appends an absent name.
\<close>

theorem AddOption_never_registers:
  "OptionNames (AddOption s line) = OptionNames s
   \<and> (snd (parseOption line) \<noteq> [] \<longrightarrow>
        Exists (AddOption s line) (fst (parseOption line))
        \<and> ValueOf (AddOption s line) (fst (parseOption line)) = snd (parseOption line))
   \<and> (fst (parseOption line) \<notin> set (OptionNames s) \<longrightarrow>
        fst (parseOption line) \<notin> set (OptionNames (AddOption s line))
        \<and> Section_String (AddOption s line) = Section_String s)
   \<and> (\<not> Exists s k \<longrightarrow> OptionNames (snd (Add s k v)) = OptionNames s @ [k])
   \<and> OptionNames (snd (SetValueFor s k v)) = OptionNames s
   \<and> (Section_Delete s k = Returned (x, s') \<longrightarrow> set (OptionNames s') \<subseteq> set (OptionNames s))"
proof -
  have names: "OptionNames (AddOption s line) = OptionNames s"
    by (simp add: AddOption_def OptionNames_def split: prod.splits)
  have stored: "snd (parseOption line) \<noteq> [] \<longrightarrow>
        Exists (AddOption s line) (fst (parseOption line))
        \<and> ValueOf (AddOption s line) (fst (parseOption line)) = snd (parseOption line)"
    by (simp add: AddOption_def Exists_def ValueOf_def split: prod.splits)
  have str: "Section_String (AddOption s line) = Section_String s"
    if "fst (parseOption line) \<notin> set (OptionNames s)"
  proof (rule Section_String_cong)
    show "name (AddOption s line) = name s"
      by (simp add: AddOption_def split: prod.splits)
    show "orderedOptions (AddOption s line) = orderedOptions s"
      using names by (simp add: OptionNames_def)
    show "options (AddOption s line) k = options s k" if "k \<in> set (orderedOptions s)" for k
      using that \<open>fst (parseOption line) \<notin> set (OptionNames s)\<close>
      by (auto simp: AddOption_def OptionNames_def split: prod.splits)
  qed
  have add: "\<not> Exists s k \<longrightarrow> OptionNames (snd (Add s k v)) = OptionNames s @ [k]"
    by (simp add: Add_def Exists_def OptionNames_def split: option.splits)
  have setv: "OptionNames (snd (SetValueFor s k v)) = OptionNames s"
    by (simp add: SetValueFor_def OptionNames_def Let_def)
  from names stored str add setv Section_Delete_names show ?thesis
    by simp
qed

theorem AddOption_never_registers_witness:
  "snd (parseOption ''foo=bar'') \<noteq> [] \<and> fst (parseOption ''foo=bar'') \<notin> set (OptionNames sec0)
   \<and> Exists (AddOption sec0 ''foo=bar'') ''foo''
   \<and> ValueOf (AddOption sec0 ''foo=bar'') ''foo'' = ''bar''
   \<and> OptionNames (AddOption sec0 ''foo=bar'') = []
   \<and> Section_String (AddOption sec0 ''foo=bar'') = ''[s]'' @ [CHR 0x0A]
   \<and> \<not> Exists sec0 ''foo'' \<and> OptionNames (snd (Add sec0 ''foo'' ''bar'')) = [''foo'']
   \<and> Section_Delete (snd (Add sec0 ''foo'' ''bar'')) ''foo'' = Returned (''bar'', sec0)
   \<and> set (OptionNames sec0) \<subseteq> set (OptionNames (snd (Add sec0 ''foo'' ''bar'')))"
proof -
  have p: "parseOption ''foo=bar'' = (''foo'', ''bar'')"
    by (simp add: parseOption_def parseOption_split_def Trim_def)
  have n: "OptionNames sec0 = []"
    by (simp add: OptionNames_def sec0_def)
  have e: "\<not> Exists sec0 ''foo''"
    by (simp add: Exists_def sec0_def)
  have s: "Section_String sec0 = ''[s]'' @ [CHR 0x0A]"
    by (simp add: Section_String_def sec0_def)
  have d: "Section_Delete (snd (Add sec0 ''foo'' ''bar'')) ''foo'' = Returned (''bar'', sec0)"
    by (simp add: Section_Delete_def Add_def sec0_def remove_at_def)
  show ?thesis
    using AddOption_never_registers [of sec0 "''foo=bar''" "''foo''" "''bar''" "''bar''" sec0]
      AddOption_never_registers [of "snd (Add sec0 ''foo'' ''bar'')" "''foo=bar''" "''foo''" "''bar''" "''bar''" sec0]
      p n e s d
    by simp
qed

text \<open>
  C10, as stated for every Section, fails on a Section where \<open>Add\<close> has registered the
  name before: after \<open>Add("foo", "bar")\<close> the line \<open>foo = new\<close> is stored through
  \<open>AddOption\<close>, and its name is in \<open>OptionNames\<close> and its entry in the text of
  \<open>Section.String\<close>.
\<close>

theorem AddOption_registered_name_counterexample:
  "parseOption ''foo = new'' = (''foo'', ''new'')
   \<and> OptionNames (snd (Add sec0 ''foo'' ''bar'')) = [''foo'']
   \<and> options (AddOption (snd (Add sec0 ''foo'' ''bar'')) ''foo = new'') ''foo'' = Some ''new''
   \<and> ''foo'' \<in> set (OptionNames (AddOption (snd (Add sec0 ''foo'' ''bar'')) ''foo = new''))
   \<and> Section_String (AddOption (snd (Add sec0 ''foo'' ''bar'')) ''foo = new'') =
       ''[s]'' @ [CHR 0x0A] @ ''foo=new'' @ [CHR 0x0A]
   \<and> Section_String (AddOption (snd (Add sec0 ''foo'' ''bar'')) ''foo = new'') \<noteq>
       Section_String (snd (Add sec0 ''foo'' ''bar''))"
proof -
  have p: "parseOption ''foo = new'' = (''foo'', ''new'')"
    by (simp add: parseOption_def parseOption_split_def Trim_def)
  show ?thesis
    by (simp add: p AddOption_def Add_def sec0_def OptionNames_def Section_String_def)
qed

section \<open>Properties of IniFile\<close>

subsection \<open>Section and StringValue\<close>

lemma with_one:
  "with_sections [''global''] =
     (\<lparr>cells = (cells heap0)(0 := \<lparr>name = ''global'', options = Map.empty, orderedOptions = []\<rparr>),
        fresh = 1\<rparr>,
      \<lparr>filePath = ''conf.ini'', sections = [''global'' \<mapsto> [0]], orderedSections = [''global'']\<rparr>)"
  by (simp add: with_sections_def AddSection_def NewIniFile_def heap0_def)

lemma twice_x_eval:
  "twice_x =
     (\<lparr>cells = (cells heap0)
          (0 := \<lparr>name = ''x'', options = [''k'' \<mapsto> ''first''], orderedOptions = [''k'']\<rparr>,
           1 := \<lparr>name = ''y'', options = Map.empty, orderedOptions = []\<rparr>,
           2 := \<lparr>name = ''x'', options = [''k'' \<mapsto> ''second''], orderedOptions = [''k'']\<rparr>),
        fresh = 3\<rparr>,
      \<lparr>filePath = ''conf.ini'', sections = [''x'' \<mapsto> [0, 2], ''y'' \<mapsto> [1]],
        orderedSections = [''x'', ''y'']\<rparr>)"
  by (simp add: twice_x_def AddSection_def NewIniFile_def heap0_def on_section_def Add_def
      eval_nat_numeral fun_upd_twist)

text \<open>
  C8. \<open>Section(name)\<close> returns the first instance registered under the name, and
  fails with NotFound exactly when the name has no instance; \<open>StringValue\<close> returns
  what the option map of that first instance holds for the option (the empty string when
  it holds nothing) and fails with the same NotFound. In a configuration without empty
  lists, which is all the operations produce, the names without instance are the names
  that are not keys of the mapping.
\<close>

theorem Section_first_or_NotFound:
  "(instances c nm = [] \<longrightarrow>
      IniFile_Section c nm = Inl (NotFound nm) \<and> StringValue h c nm opt = Inl (NotFound nm))
   \<and> (instances c nm = r # rs \<longrightarrow>
      IniFile_Section c nm = Inr r
      \<and> StringValue h c nm opt = Inr (ValueOf (cells h r) opt)
      \<and> StringValue h c nm opt = Inr (case options (cells h r) opt of None \<Rightarrow> [] | Some v \<Rightarrow> v))
   \<and> (instances c nm = r # rs \<and> options (cells h r) opt = Some v \<longrightarrow>
      StringValue h c nm opt = Inr v)
   \<and> ((\<exists>e. IniFile_Section c nm = Inl e) = (instances c nm = []))
   \<and> (no_empty_slot c \<longrightarrow> (instances c nm = []) = (sections c nm = None))"
  by (auto simp: instances_def IniFile_Section_def StringValue_def ValueOf_def no_empty_slot_def
      split: option.splits list.splits)

text \<open>
  The witness has two instances under \<open>x\<close> that differ in the value of \<open>k\<close>: the
  value of the first one is returned.
\<close>

theorem Section_first_or_NotFound_witness:
  "instances (snd twice_x) ''x'' = [0, 2]
   \<and> options (cells (fst twice_x) 0) ''k'' = Some ''first''
   \<and> options (cells (fst twice_x) 2) ''k'' = Some ''second''
   \<and> options (cells (fst twice_x) 0) ''j'' = None
   \<and> IniFile_Section (snd twice_x) ''x'' = Inr 0
   \<and> StringValue (fst twice_x) (snd twice_x) ''x'' ''k'' = Inr ''first''
   \<and> StringValue (fst twice_x) (snd twice_x) ''x'' ''j'' = Inr []
   \<and> instances (snd twice_x) ''z'' = []
   \<and> IniFile_Section (snd twice_x) ''z'' = Inl (NotFound ''z'')
   \<and> StringValue (fst twice_x) (snd twice_x) ''z'' ''k'' = Inl (NotFound ''z'')
   \<and> no_empty_slot (snd twice_x)
   \<and> sections (snd twice_x) ''z'' = None"
proof -
  have a: "instances (snd twice_x) ''x'' = [0, 2]"
    by (simp add: twice_x_eval instances_def)
  have b: "instances (snd twice_x) ''z'' = []"
    by (simp add: twice_x_eval instances_def)
  have c: "no_empty_slot (snd twice_x)"
    by (simp add: twice_x_eval no_empty_slot_def)
  have d: "options (cells (fst twice_x) 0) ''k'' = Some ''first''"
    by (simp add: twice_x_eval)
  have e: "options (cells (fst twice_x) 2) ''k'' = Some ''second''"
    by (simp add: twice_x_eval)
  have f: "options (cells (fst twice_x) 0) ''j'' = None"
    by (simp add: twice_x_eval)
  show ?thesis
    using Section_first_or_NotFound [of "snd twice_x" "''x''" "fst twice_x" "''k''" 0 "[2]" "''first''"]
      Section_first_or_NotFound [of "snd twice_x" "''x''" "fst twice_x" "''j''" 0 "[2]" "''first''"]
      Section_first_or_NotFound [of "snd twice_x" "''z''" "fst twice_x" "''k''" 0 "[2]" "''first''"]
      a b c d e f
    by (simp add: ValueOf_def)
qed

subsection \<open>Parse and String on the scenario\<close>

lemmas eval_defs = Parse_def AddSection_def NewIniFile_def heap0_def on_section_def
  AddOption_def parseOption_def parseOption_split_def Trim_def HasPrefix_def isSection_def
  IniFile_String_def Sections_def Section_String_def Let_def

lemma scenario_parsed:
  "Parse heap0 ''conf.ini'' (Inr (Stream scenario None)) =
     Inr (\<lparr>cells = (cells heap0)
              (0 := \<lparr>name = ''global'', options = [''foo'' \<mapsto> ''bar''], orderedOptions = []\<rparr>,
               1 := \<lparr>name = ''section'', options = [''baz'' \<mapsto> ''qux''], orderedOptions = []\<rparr>),
            fresh = 2\<rparr>,
          \<lparr>filePath = ''conf.ini'',
            sections = [''global'' \<mapsto> [0], ''section'' \<mapsto> [1]],
            orderedSections = [''global'', ''section'']\<rparr>)"
  by (simp add: scenario_def eval_defs fun_upd_twist)

text \<open>
  C2, as stated, fails: after parsing the four lines, \<open>String()\<close> returns the header
  of the second section and nothing else, not the three lines of the specification.
\<close>

theorem scenario_String_counterexample:
  "(case Parse heap0 ''conf.ini'' (Inr (Stream scenario None)) of
      Inl err \<Rightarrow> False
    | Inr (h, c) \<Rightarrow>
        IniFile_String h c = ''[section]'' @ [CHR 0x0A]
        \<and> IniFile_String h c \<noteq>
            ''foo = bar'' @ [CHR 0x0A] @ ''[section]'' @ [CHR 0x0A] @ ''baz = qux'' @ [CHR 0x0A])"
  by (simp add: scenario_parsed) (simp add: eval_defs)

text \<open>
  C2, amended. Parsing the four lines gives the sections \<open>global\<close> and \<open>section\<close>,
  the first with the single option \<open>foo\<close> of value \<open>bar\<close>, the second with the single
  option \<open>baz\<close> of value \<open>qux\<close>, the comment dropped. \<open>String()\<close> writes a registered
  option as \<open>key=value\<close> without spaces: on the configuration with these sections and
  options made by \<open>AddSection\<close> and \<open>Add\<close> it returns \<open>foo=bar\<close>, \<open>[section]\<close>,
  \<open>baz=qux\<close>, each followed by a newline.
\<close>

theorem scenario_parse_and_format:
  "(case Parse heap0 ''conf.ini'' (Inr (Stream scenario None)) of
      Inl err \<Rightarrow> False
    | Inr (h, c) \<Rightarrow>
        orderedSections c = [''global'', ''section'']
        \<and> sections c = [''global'' \<mapsto> [0], ''section'' \<mapsto> [1]]
        \<and> name (cells h 0) = ''global'' \<and> options (cells h 0) = [''foo'' \<mapsto> ''bar'']
        \<and> name (cells h 1) = ''section'' \<and> options (cells h 1) = [''baz'' \<mapsto> ''qux'']
        \<and> StringValue h c ''global'' ''foo'' = Inr ''bar''
        \<and> StringValue h c ''section'' ''baz'' = Inr ''qux''
        \<and> \<not> Exists (cells h 1) ''; a comment''
        \<and> (case built of
              (h', c') \<Rightarrow>
                sections c' = sections c \<and> orderedSections c' = orderedSections c
                \<and> options (cells h' 0) = options (cells h 0)
                \<and> options (cells h' 1) = options (cells h 1)
                \<and> IniFile_String h' c' =
                    ''foo=bar'' @ [CHR 0x0A] @ ''[section]'' @ [CHR 0x0A] @ ''baz=qux'' @ [CHR 0x0A]))"
  by (simp add: scenario_parsed)
     (simp add: built_def eval_defs StringValue_def IniFile_Section_def ValueOf_def Exists_def Add_def)

subsection \<open>The round trip\<close>

lemma one_line_parsed:
  "Parse_text heap0 ''conf.ini'' (''foo=bar'' @ [CHR 0x0A]) =
     Inr (\<lparr>cells = (cells heap0)
              (0 := \<lparr>name = ''global'', options = [''foo'' \<mapsto> ''bar''], orderedOptions = []\<rparr>),
            fresh = 1\<rparr>,
          \<lparr>filePath = ''conf.ini'', sections = [''global'' \<mapsto> [0]],
            orderedSections = [''global'']\<rparr>)"
  by (simp add: Parse_text_def dropCR_def eval_defs)


lemma one_line_String:
  "IniFile_String
     \<lparr>cells = (cells heap0)
        (0 := \<lparr>name = ''global'', options = [''foo'' \<mapsto> ''bar''], orderedOptions = []\<rparr>),
      fresh = 1\<rparr>
     \<lparr>filePath = ''conf.ini'', sections = [''global'' \<mapsto> [0]], orderedSections = [''global'']\<rparr>
   = []"
  by (simp add: IniFile_String_def Sections_def Section_String_def)

text \<open>
  C1 fails on the file with the single line \<open>foo=bar\<close>: the parsed \<open>global\<close> section
  holds the option, \<open>String()\<close> returns the empty text because \<open>AddOption\<close> has not
  registered the name, and parsing that text gives a \<open>global\<close> section without the
  option.
\<close>

theorem round_trip_loses_options:
  "(case Parse_text heap0 ''conf.ini'' (''foo=bar'' @ [CHR 0x0A]) of
      Inl err \<Rightarrow> False
    | Inr (h, c) \<Rightarrow>
        sections c ''global'' = Some [0] \<and> options (cells h 0) ''foo'' = Some ''bar''
        \<and> IniFile_String h c = []
        \<and> (case Parse_text h ''conf.ini'' (IniFile_String h c) of
              Inl err \<Rightarrow> False
            | Inr (h', c') \<Rightarrow>
                sections c' ''global'' = Some [1] \<and> options (cells h' 1) ''foo'' = None))"
  by (simp only: one_line_parsed sum.case prod.case one_line_String)
     (simp add: Parse_text_def Parse_def AddSection_def NewIniFile_def)

subsection \<open>The invariant of the registry\<close>

lemma registry_NewIniFile:
  "registry_invariant (NewIniFile p) \<and> no_empty_slot (NewIniFile p)"
  by (simp add: registry_invariant_def no_empty_slot_def instances_def NewIniFile_def)

lemma registry_AddSection:
  assumes "registry_invariant c" "no_empty_slot c" "AddSection h c nm = (r, h', c')"
  shows "registry_invariant c' \<and> no_empty_slot c'"
proof (cases "sections c nm")
  case None
  with assms(3) have c': "c' = c\<lparr>sections := (sections c)(nm \<mapsto> [fresh h]),
                                   orderedSections := orderedSections c @ [nm]\<rparr>"
    by (auto simp: AddSection_def Let_def)
  from assms(1,2) show ?thesis
    unfolding c' by (auto simp: registry_invariant_def no_empty_slot_def instances_def)
next
  case (Some lst)
  with assms(3) have c': "c' = c\<lparr>sections := (sections c)(nm \<mapsto> lst @ [fresh h])\<rparr>"
    by (auto simp: AddSection_def Let_def)
  from assms(2) Some have "lst \<noteq> []"
    by (auto simp: no_empty_slot_def)
  with assms(1) Some have "nm \<in> set (orderedSections c)"
    by (simp add: registry_invariant_def instances_def)
  with assms(1,2) show ?thesis
    unfolding c' by (auto simp: registry_invariant_def no_empty_slot_def instances_def)
qed

lemma registry_Parse_loop:
  assumes "registry_invariant c" "no_empty_slot c" "Parse_loop ls h c a = (h', c')"
  shows "registry_invariant c' \<and> no_empty_slot c'"
  using assms
proof (induction ls arbitrary: h c a)
  case Nil
  then show ?case by simp
next
  case (Cons line rest)
  show ?case
  proof (cases "\<not> (HasPrefix line ''#'' \<or> HasPrefix line '';'') \<and> length line > 0 \<and> isSection line")
    case True
    obtain r h1 c1 where a: "AddSection h c (Trim line '' []'') = (r, h1, c1)"
      by (metis prod_cases3)
    with True Cons.prems(3) have "Parse_loop rest h1 c1 r = (h', c')"
      by simp
    moreover from Cons.prems(1,2) a have "registry_invariant c1 \<and> no_empty_slot c1"
      by (rule registry_AddSection)
    ultimately show ?thesis
      using Cons.IH by blast
  next
    case False
    with Cons.prems(3)
    have "Parse_loop rest (on_section h a (\<lambda>s. AddOption s line)) c a = (h', c')"
      by (auto split: if_splits)
    with Cons.prems(1,2) show ?thesis
      using Cons.IH by blast
  qed
qed

lemma registry_Parse:
  assumes "Parse h p opened = Inr (h', c')"
  shows "registry_invariant c' \<and> no_empty_slot c'"
proof -
  obtain g h1 c1 where a: "AddSection h (NewIniFile p) ''global'' = (g, h1, c1)"
    by (metis prod_cases3)
  from registry_NewIniFile [of p] a have i: "registry_invariant c1 \<and> no_empty_slot c1"
    using registry_AddSection by blast
  from assms a obtain ls where "Parse_loop ls h1 c1 g = (h', c')"
    by (auto simp: Parse_def split: sum.splits stream.splits prod.splits option.splits)
  with i show ?thesis
    using registry_Parse_loop by blast
qed

lemmas delete_eval = IniFile_Delete_def Find_def MatchString_def anchored_literals_def plain_def
  HasPrefix_def remove_at_def eval_nat_numeral

lemma with_two:
  "with_sections [''db-1'', ''db-2''] =
     (\<lparr>cells = (cells heap0)
          (0 := \<lparr>name = ''db-1'', options = Map.empty, orderedOptions = []\<rparr>,
           1 := \<lparr>name = ''db-2'', options = Map.empty, orderedOptions = []\<rparr>),
        fresh = 2\<rparr>,
      \<lparr>filePath = ''conf.ini'', sections = [''db-1'' \<mapsto> [0], ''db-2'' \<mapsto> [1]],
        orderedSections = [''db-1'', ''db-2'']\<rparr>)"
  by (simp add: with_sections_def AddSection_def NewIniFile_def heap0_def eval_nat_numeral)

lemma with_three:
  "with_sections [''db-1'', ''db-2'', ''cache-1''] =
     (\<lparr>cells = (cells heap0)
          (0 := \<lparr>name = ''db-1'', options = Map.empty, orderedOptions = []\<rparr>,
           1 := \<lparr>name = ''db-2'', options = Map.empty, orderedOptions = []\<rparr>,
           2 := \<lparr>name = ''cache-1'', options = Map.empty, orderedOptions = []\<rparr>),
        fresh = 3\<rparr>,
      \<lparr>filePath = ''conf.ini'',
        sections = [''db-1'' \<mapsto> [0], ''db-2'' \<mapsto> [1], ''cache-1'' \<mapsto> [2]],
        orderedSections = [''db-1'', ''db-2'', ''cache-1'']\<rparr>)"
  by (simp add: with_sections_def AddSection_def NewIniFile_def heap0_def eval_nat_numeral)

lemma with_abc:
  "with_sections [''a1'', ''a2'', ''b''] =
     (\<lparr>cells = (cells heap0)
          (0 := \<lparr>name = ''a1'', options = Map.empty, orderedOptions = []\<rparr>,
           1 := \<lparr>name = ''a2'', options = Map.empty, orderedOptions = []\<rparr>,
           2 := \<lparr>name = ''b'', options = Map.empty, orderedOptions = []\<rparr>),
        fresh = 3\<rparr>,
      \<lparr>filePath = ''conf.ini'',
        sections = [''a1'' \<mapsto> [0], ''a2'' \<mapsto> [1], ''b'' \<mapsto> [2]],
        orderedSections = [''a1'', ''a2'', ''b'']\<rparr>)"
  by (simp add: with_sections_def AddSection_def NewIniFile_def heap0_def eval_nat_numeral)

text \<open>
  C4 fails after \<open>Delete\<close>: with the sections \<open>a1\<close>, \<open>a2\<close> and \<open>b\<close>, where the
  invariant holds, \<open>Delete("^a")\<close> returns the two matching sections and removes both
  names from the mapping, but leaves \<open>a2\<close> in the order sequence.
\<close>

theorem Delete_breaks_invariant:
  "(case with_sections [''a1'', ''a2'', ''b''] of
      (h, c) \<Rightarrow>
        registry_invariant c \<and> iteration_order c [''a1'', ''a2'', ''b'']
        \<and> (case IniFile_Delete anchored_literals h c [''a1'', ''a2'', ''b''] ''^a'' of
              Panicked \<Rightarrow> False
            | Returned (res, c') \<Rightarrow>
                res = Inr [0, 1] \<and> sections c' = [''b'' \<mapsto> [2]]
                \<and> orderedSections c' = [''a2'', ''b''] \<and> \<not> registry_invariant c'))"
proof -
  have d: "IniFile_Delete anchored_literals
             (fst (with_sections [''a1'', ''a2'', ''b''])) (snd (with_sections [''a1'', ''a2'', ''b'']))
             [''a1'', ''a2'', ''b''] ''^a'' =
           Returned (Inr [0, 1],
             \<lparr>filePath = ''conf.ini'', sections = [''b'' \<mapsto> [2]], orderedSections = [''a2'', ''b'']\<rparr>)"
    by (simp add: with_abc) (simp add: delete_eval fun_eq_iff)
  have i: "registry_invariant (snd (with_sections [''a1'', ''a2'', ''b'']))"
    by (simp add: with_abc registry_invariant_def instances_def)
  have o: "iteration_order (snd (with_sections [''a1'', ''a2'', ''b''])) [''a1'', ''a2'', ''b'']"
    by (auto simp: with_abc iteration_order_def dom_def)
  have n: "\<not> registry_invariant
             \<lparr>filePath = ''conf.ini'', sections = [''b'' \<mapsto> [2]], orderedSections = [''a2'', ''b'']\<rparr>"
    by (simp add: registry_invariant_def instances_def) (rule exI [of _ "''a2''"], simp)
  from d i o n show ?thesis
    by (simp add: case_prod_unfold)
qed

subsection \<open>Find and Delete with a pattern that compiles\<close>

lemma Find_loop_valid:
  "rx regex = Some m \<Longrightarrow>
     Find_loop rx c regex keys secs = Inr (secs @ concat (map (instances c) (filter m keys)))"
  by (induction keys arbitrary: secs) (simp_all add: MatchString_def instances_def)

lemma Find_valid:
  "rx regex = Some m \<Longrightarrow> Find rx c keys regex = Inr (concat (map (instances c) (filter m keys)))"
  by (simp add: Find_def Find_loop_valid)

lemma Delete_loop_valid:
  "rx regex = Some m \<Longrightarrow> Delete_loop rx regex is arr n = Returned (arr', n', err) \<Longrightarrow> err = None"
  by (induction "is" arbitrary: arr n) (auto simp: MatchString_def split: if_splits)

lemma Delete_returns_found:
  assumes "rx regex = Some m" "IniFile_Delete rx h c keys regex = Returned (res, c')"
  shows "res = Inr (concat (map (instances c) (filter m keys)))"
proof -
  from assms(1) have f: "Find rx c keys regex = Inr (concat (map (instances c) (filter m keys)))"
    by (rule Find_valid)
  have l: "err = None" if "Delete_loop rx regex is arr n = Returned (arr', n', err)"
    for "is" arr n arr' n' err
    using assms(1) that by (rule Delete_loop_valid)
  from assms(2) f show ?thesis
    by (auto simp: IniFile_Delete_def Let_def split: outcome.splits option.splits dest: l)
qed

lemma fold_delete:
  "fold (\<lambda>s m. m(f s := None)) secs m0 = (\<lambda>k. if k \<in> f ` set secs then None else m0 k)"
  by (induction secs arbitrary: m0) (auto simp: fun_eq_iff)

lemma found_names:
  assumes "named_by_key h c" "no_empty_slot c" "set keys = dom (sections c)"
  shows "(\<lambda>s. name (cells h s)) ` set (concat (map (instances c) (filter m keys)))
         = {nm \<in> dom (sections c). m nm}"
proof (intro set_eqI iffI)
  fix nm
  assume "nm \<in> (\<lambda>s. name (cells h s)) ` set (concat (map (instances c) (filter m keys)))"
  then obtain s k where k: "k \<in> set keys" "m k" "s \<in> set (instances c k)"
    and nm: "nm = name (cells h s)"
    by auto
  from assms(1) k(3) have "name (cells h s) = k"
    by (auto simp: named_by_key_def list_all_iff)
  with k nm assms(3) show "nm \<in> {nm \<in> dom (sections c). m nm}"
    by simp
next
  fix nm
  assume "nm \<in> {nm \<in> dom (sections c). m nm}"
  then obtain lst where l: "sections c nm = Some lst" and m: "m nm"
    by auto
  with assms(2) obtain s where s: "s \<in> set lst"
    by (cases lst) (auto simp: no_empty_slot_def)
  with l have i: "s \<in> set (instances c nm)"
    by (simp add: instances_def)
  with assms(1) have "name (cells h s) = nm"
    by (auto simp: named_by_key_def list_all_iff)
  moreover from l assms(3) have "nm \<in> set keys"
    by auto
  ultimately show "nm \<in> (\<lambda>s. name (cells h s)) ` set (concat (map (instances c) (filter m keys)))"
    using i m by force
qed

lemma Delete_mapping:
  assumes "rx regex = Some m" "iteration_order c keys" "named_by_key h c" "no_empty_slot c"
    and "IniFile_Delete rx h c keys regex = Returned (res, c')"
  shows "sections c' nm = (if m nm then None else sections c nm)"
proof -
  from assms(1) have f: "Find rx c keys regex = Inr (concat (map (instances c) (filter m keys)))"
    by (rule Find_valid)
  from assms(2) have k: "set keys = dom (sections c)"
    by (simp add: iteration_order_def)
  from assms(5) f
  have "sections c' = fold (\<lambda>s m. m(name (cells h s) := None))
                        (concat (map (instances c) (filter m keys))) (sections c)"
    by (auto simp: IniFile_Delete_def Let_def split: outcome.splits option.splits)
  then have "sections c' nm = (if nm \<in> {nm \<in> dom (sections c). m nm} then None else sections c nm)"
    by (simp only: fold_delete found_names [OF assms(3,4) k])
  then show ?thesis
    by auto
qed

text \<open>
  C5 fails on the order sequence. On its own example (sections \<open>db-1\<close>, \<open>db-2\<close>,
  \<open>cache-1\<close>) \<open>Delete("^db-")\<close> returns the two matching sections and
  \<open>Sections("")\<close> then gives \<open>cache-1\<close> only, but \<open>db-2\<close> is still in the order
  sequence; with the sections \<open>db-1\<close> and \<open>db-2\<close> alone the same call panics.
\<close>

theorem Delete_keeps_matching_name:
  "(case with_sections [''db-1'', ''db-2'', ''cache-1''] of
      (h, c) \<Rightarrow>
        (case IniFile_Delete anchored_literals h c [''db-1'', ''db-2'', ''cache-1''] ''^db-'' of
           Panicked \<Rightarrow> False
         | Returned (res, c') \<Rightarrow>
             res = Inr [0, 1] \<and> Sections c' [] = Inr [2]
             \<and> sections c' = [''cache-1'' \<mapsto> [2]]
             \<and> orderedSections c' = [''db-2'', ''cache-1'']))
   \<and> (case with_sections [''db-1'', ''db-2''] of
        (h, c) \<Rightarrow>
          IniFile_Delete anchored_literals h c [''db-1'', ''db-2''] ''^db-'' = Panicked)"
  by (simp add: with_three with_two) (simp add: delete_eval Sections_def fun_eq_iff)

subsection \<open>Find and Delete with a pattern that does not compile\<close>

lemma Find_invalid:
  "rx regex = None \<Longrightarrow>
     Find rx c keys regex = (if keys = [] then Inr [] else Inl (InvalidPattern regex))"
  by (cases keys) (simp_all add: Find_def MatchString_def)

lemma Delete_loop_invalid:
  assumes "rx regex = None" "arr \<noteq> []"
  shows "Delete_loop rx regex [0 ..< length arr] arr n = Returned (arr, n, Some (InvalidPattern regex))"
proof -
  from assms(2) have "[0 ..< length arr] = 0 # [1 ..< length arr]"
    by (simp add: upt_conv_Cons)
  with assms(1) show ?thesis
    by (simp add: MatchString_def)
qed

text \<open>
  C9, amended. With a pattern that does not compile, \<open>Find\<close> returns no sections, and
  an error when the mapping has a key; \<open>Delete\<close> returns no sections and leaves the
  configuration as it is, with an error when the mapping has a key or the order
  sequence a name. On a configuration without any name both return no error.
\<close>

theorem invalid_regex_no_change:
  assumes "rx regex = None" and "iteration_order c keys"
  shows "Find rx c keys regex =
           (if sections c = Map.empty then Inr [] else Inl (InvalidPattern regex))
         \<and> IniFile_Delete rx h c keys regex =
           Returned (if sections c = Map.empty \<and> orderedSections c = [] then Inr []
                     else Inl (InvalidPattern regex), c)"
proof -
  from assms(2) have sk: "set keys = dom (sections c)"
    by (simp add: iteration_order_def)
  have k: "(keys = []) = (sections c = Map.empty)"
  proof
    assume "keys = []"
    with sk have "dom (sections c) = {}" by simp
    then show "sections c = Map.empty" by simp
  next
    assume "sections c = Map.empty"
    with sk show "keys = []" by simp
  qed
  have f: "Find rx c keys regex = (if keys = [] then Inr [] else Inl (InvalidPattern regex))"
    using assms(1) by (rule Find_invalid)
  have d: "IniFile_Delete rx h c keys regex =
           Returned (if keys = [] \<and> orderedSections c = [] then Inr []
                     else Inl (InvalidPattern regex), c)"
  proof (cases "keys = []")
    case False
    with f show ?thesis
      by (simp add: IniFile_Delete_def)
  next
    case True
    show ?thesis
    proof (cases "orderedSections c = []")
      case True
      with \<open>keys = []\<close> f show ?thesis
        by (simp add: IniFile_Delete_def)
    next
      case False
      from assms(1) False
      have "Delete_loop rx regex [0 ..< length (orderedSections c)] (orderedSections c)
              (length (orderedSections c)) =
            Returned (orderedSections c, length (orderedSections c), Some (InvalidPattern regex))"
        by (rule Delete_loop_invalid [where rx = rx and regex = regex])
      with \<open>keys = []\<close> f False show ?thesis
        by (simp add: IniFile_Delete_def)
    qed
  qed
  from f d k show ?thesis
    by simp
qed

theorem invalid_regex_no_change_witness:
  "anchored_literals ''('' = None
   \<and> iteration_order (snd (with_sections [''global''])) [''global'']
   \<and> Find anchored_literals (snd (with_sections [''global''])) [''global''] ''('' =
       Inl (InvalidPattern ''('')
   \<and> IniFile_Delete anchored_literals (fst (with_sections [''global'']))
        (snd (with_sections [''global''])) [''global''] ''('' =
       Returned (Inl (InvalidPattern ''(''), snd (with_sections [''global'']))
   \<and> iteration_order (NewIniFile ''conf.ini'') []
   \<and> Find anchored_literals (NewIniFile ''conf.ini'') [] ''('' = Inr []"
proof -
  have a: "anchored_literals ''('' = None"
    by (simp add: anchored_literals_def plain_def)
  have b: "iteration_order (snd (with_sections [''global''])) [''global'']"
    by (simp add: with_one iteration_order_def)
  have c: "iteration_order (NewIniFile ''conf.ini'') []"
    by (simp add: iteration_order_def NewIniFile_def)
  have d: "sections (snd (with_sections [''global''])) \<noteq> Map.empty"
    by (simp add: with_one fun_eq_iff)
  have e: "sections (NewIniFile ''conf.ini'') = Map.empty"
    by (simp add: NewIniFile_def)
  show ?thesis
    using invalid_regex_no_change [of anchored_literals "''(''" "snd (with_sections [''global''])"
        "[''global'']" "fst (with_sections [''global''])"]
      invalid_regex_no_change [of anchored_literals "''(''" "NewIniFile ''conf.ini''" "[]" heap0]
      a b c d e
    by simp
qed

text \<open>
  C9, as stated, fails on the new, empty configuration: the pattern \<open>(\<close> does not
  compile, yet \<open>Find\<close> and \<open>Delete\<close> return without error.
\<close>

theorem invalid_regex_empty_counterexample:
  "anchored_literals ''('' = None
   \<and> Find anchored_literals (NewIniFile ''conf.ini'') [] ''('' = Inr []
   \<and> IniFile_Delete anchored_literals heap0 (NewIniFile ''conf.ini'') [] ''('' =
       Returned (Inr [], NewIniFile ''conf.ini'')"
  by (simp add: anchored_literals_def plain_def Find_def IniFile_Delete_def NewIniFile_def)

end
